theory Spec2Isabelle
  imports Main "HOL-Library.Word"
begin

section \<open>Ordered middleware groups (middleware/ordered\_group.go)\<close>

subsection \<open>Errors and positions\<close>

text \<open>
  Every \<^verbatim>\<open>fmt.Errorf\<close> of the package is one constructor. A Go method that returns
  \<^verbatim>\<open>error\<close> returns \<open>error option\<close> here, \<open>None\<close> being \<^verbatim>\<open>nil\<close>. The two run-time
  panics the code can raise (a slice expression out of range, a type assertion on a nil
  interface) are constructors as well, so that a panic is a visible branch of the model.
\<close>

datatype error =
    EmptyID
  | InsertEmptyID
  | SlotEmptyID
  | RelativeToEmptyID
  | SwapFromEmptyID
  | SwapToEmptyID
  | SwapSlotMismatch
  | RemoveEmptyID
  | AlreadyExists string
  | NotFound string
  | InvalidPosition int
  | PanicSliceBounds
  | PanicNilInterfaceConversion

text \<open>\<^verbatim>\<open>type RelativePosition int\<close> with \<^verbatim>\<open>After = iota\<close> and \<^verbatim>\<open>Before\<close> next.\<close>

type_synonym RelativePosition = int

definition After :: RelativePosition where
  "After = 0"

definition Before :: RelativePosition where
  "Before = 1"

subsection \<open>relativeOrder\<close>

record relativeOrder =
  order :: "string list"

text \<open>The linear scan of \<^verbatim>\<open>has\<close>: the loop variable is the third argument.\<close>

function has_loop :: "string list \<Rightarrow> string \<Rightarrow> nat \<Rightarrow> nat \<times> bool" where
  "has_loop xs id' i =
     (if i < length xs
      then (if xs ! i = id' then (i, True) else has_loop xs id' (i + 1))
      else (0, False))"
  by pat_completeness auto
termination
  by (relation "measure (\<lambda>(xs, id', i). length xs - i)") auto

declare has_loop.simps [simp del]

definition has :: "relativeOrder \<Rightarrow> string \<Rightarrow> nat \<times> bool" where
  "has s id' = has_loop (order s) id' 0"

text \<open>
  \<^verbatim>\<open>copy(dst, src)\<close> for two windows \<^verbatim>\<open>xs[d:]\<close> and \<^verbatim>\<open>xs[s:]\<close> of one slice: the
  first \<open>min\<close> of the two lengths elements of the source window overwrite the start of
  the destination window, as if the source had been read whole before the first write.
\<close>

definition copy_within :: "'a list \<Rightarrow> nat \<Rightarrow> nat \<Rightarrow> 'a list" where
  "copy_within xs d s =
     (let n = min (length xs - d) (length xs - s)
      in take d xs @ take n (drop s xs) @ drop (d + n) xs)"

text \<open>
  \<^verbatim>\<open>insert(i, id, pos)\<close>. The slice expressions panic when \<open>i\<close> is past the end; the
  callers only pass an index found by \<^verbatim>\<open>has\<close>, or 0 with \<^verbatim>\<open>Before\<close>. The test
  \<^verbatim>\<open>i == len(s.order)-1\<close> is on Go's signed \<^verbatim>\<open>int\<close>.
\<close>

definition insert_at :: "relativeOrder \<Rightarrow> nat \<Rightarrow> string \<Rightarrow> RelativePosition
    \<Rightarrow> error option \<times> relativeOrder" where
  "insert_at s i id' pos =
     (if pos = Before then
        (let xs = order s @ [''''] in
         if i + 1 \<le> length xs
         then (None, s\<lparr>order := (copy_within xs (i + 1) i)[i := id']\<rparr>)
         else (Some PanicSliceBounds, s\<lparr>order := xs\<rparr>))
      else if pos = After then
        (if int i = int (length (order s)) - 1
         then (None, s\<lparr>order := order s @ [id']\<rparr>)
         else if i + 1 \<le> length (order s)
         then (None, s\<lparr>order := take (i + 1) (order s) @ ([id'] @ drop (i + 1) (order s))\<rparr>)
         else (Some PanicSliceBounds, s))
      else (Some (InvalidPosition pos), s))"

definition relativeOrder_Add :: "relativeOrder \<Rightarrow> string \<Rightarrow> RelativePosition
    \<Rightarrow> error option \<times> relativeOrder" where
  "relativeOrder_Add s id' pos =
     (if snd (has s id') then (Some (AlreadyExists id'), s)
      else if pos = Before then insert_at s 0 id' Before
      else if pos = After then (None, s\<lparr>order := order s @ [id']\<rparr>)
      else (Some (InvalidPosition pos), s))"

definition relativeOrder_Insert :: "relativeOrder \<Rightarrow> string \<Rightarrow> string \<Rightarrow> RelativePosition
    \<Rightarrow> error option \<times> relativeOrder" where
  "relativeOrder_Insert s id' relativeTo pos =
     (if snd (has s id') then (Some (AlreadyExists id'), s)
      else (let (i, ok) = has s relativeTo in
            if \<not> ok then (Some (NotFound relativeTo), s)
            else insert_at s i id' pos))"

definition relativeOrder_Swap :: "relativeOrder \<Rightarrow> string \<Rightarrow> string
    \<Rightarrow> error option \<times> relativeOrder" where
  "relativeOrder_Swap s id' to =
     (let (i, ok) = has s id' in
      if \<not> ok then (Some (NotFound id'), s)
      else if snd (has s to) \<and> id' \<noteq> to then (Some (AlreadyExists to), s)
      else (None, s\<lparr>order := (order s)[i := to]\<rparr>))"

definition relativeOrder_Remove :: "relativeOrder \<Rightarrow> string
    \<Rightarrow> error option \<times> relativeOrder" where
  "relativeOrder_Remove s id' =
     (let (i, ok) = has s id' in
      if \<not> ok then (Some (NotFound id'), s)
      else (None, s\<lparr>order := take i (order s) @ drop (i + 1) (order s)\<rparr>))"

definition relativeOrder_List :: "relativeOrder \<Rightarrow> string list" where
  "relativeOrder_List s = order s"

definition relativeOrder_Clear :: "relativeOrder \<Rightarrow> relativeOrder" where
  "relativeOrder_Clear s = s\<lparr>order := take 0 (order s)\<rparr>"

subsection \<open>orderedIDs\<close>

text \<open>
  The field \<^verbatim>\<open>order\<close> of \<^verbatim>\<open>orderedIDs\<close> is \<open>g_order\<close> here, the name \<open>order\<close>
  being the field of \<^verbatim>\<open>relativeOrder\<close>. The interface \<^verbatim>\<open>ider\<close> is a record with the
  one field \<open>ID\<close>; a middleware type extends it. \<^verbatim>\<open>items\<close> is a Go map, read with
  \<open>None\<close> for a missing key (Go's nil interface value); \<^verbatim>\<open>slots\<close> is a map to the
  empty struct, that is, a set of keys.
\<close>

record ider =
  ID :: string

record 'm orderedIDs =
  g_order :: relativeOrder
  items :: "string \<rightharpoonup> 'm"
  slots :: "string set"

definition newOrderedIDs :: "'m orderedIDs" where
  "newOrderedIDs = \<lparr>g_order = \<lparr>order = []\<rparr>, items = Map.empty, slots = {}\<rparr>"

definition orderedIDs_IsSlot :: "'m orderedIDs \<Rightarrow> string \<Rightarrow> bool" where
  "orderedIDs_IsSlot g id' = (id' \<in> slots g)"

definition orderedIDs_Add :: "('a ider_scheme) orderedIDs \<Rightarrow> 'a ider_scheme \<Rightarrow> RelativePosition
    \<Rightarrow> error option \<times> ('a ider_scheme) orderedIDs" where
  "orderedIDs_Add g m pos =
     (let id' = ID m in
      if length id' = 0 then (Some EmptyID, g)
      else if \<not> orderedIDs_IsSlot g id' then
        (case relativeOrder_Add (g_order g) id' pos of
           (Some err, s') \<Rightarrow> (Some err, g\<lparr>g_order := s'\<rparr>)
         | (None, s') \<Rightarrow> (None, g\<lparr>g_order := s', items := (items g)(id' \<mapsto> m)\<rparr>))
      else (None, g\<lparr>items := (items g)(id' \<mapsto> m)\<rparr>))"

definition orderedIDs_AddSlot :: "'m orderedIDs \<Rightarrow> string \<Rightarrow> RelativePosition
    \<Rightarrow> error option \<times> 'm orderedIDs" where
  "orderedIDs_AddSlot g id' pos =
     (if length id' = 0 then (Some EmptyID, g)
      else (case relativeOrder_Add (g_order g) id' pos of
              (Some err, s') \<Rightarrow> (Some err, g\<lparr>g_order := s'\<rparr>)
            | (None, s') \<Rightarrow> (None, g\<lparr>g_order := s', slots := insert id' (slots g)\<rparr>)))"

definition orderedIDs_Insert :: "('a ider_scheme) orderedIDs \<Rightarrow> 'a ider_scheme \<Rightarrow> string
    \<Rightarrow> RelativePosition \<Rightarrow> error option \<times> ('a ider_scheme) orderedIDs" where
  "orderedIDs_Insert g m relativeTo pos =
     (if length (ID m) = 0 then (Some InsertEmptyID, g)
      else if length relativeTo = 0 then (Some RelativeToEmptyID, g)
      else (case relativeOrder_Insert (g_order g) (ID m) relativeTo pos of
              (Some err, s') \<Rightarrow> (Some err, g\<lparr>g_order := s'\<rparr>)
            | (None, s') \<Rightarrow> (None, g\<lparr>g_order := s', items := (items g)(ID m \<mapsto> m)\<rparr>)))"

definition orderedIDs_InsertSlot :: "'m orderedIDs \<Rightarrow> string \<Rightarrow> string \<Rightarrow> RelativePosition
    \<Rightarrow> error option \<times> 'm orderedIDs" where
  "orderedIDs_InsertSlot g id' relativeTo pos =
     (if length id' = 0 then (Some SlotEmptyID, g)
      else if length relativeTo = 0 then (Some RelativeToEmptyID, g)
      else (case relativeOrder_Insert (g_order g) id' relativeTo pos of
              (Some err, s') \<Rightarrow> (Some err, g\<lparr>g_order := s'\<rparr>)
            | (None, s') \<Rightarrow> (None, g\<lparr>g_order := s', slots := insert id' (slots g)\<rparr>)))"

definition orderedIDs_Get :: "'m orderedIDs \<Rightarrow> string \<Rightarrow> 'm option \<times> bool" where
  "orderedIDs_Get g id' = (items g id', items g id' \<noteq> None)"

text \<open>
  \<^verbatim>\<open>Swap\<close> returns the removed item and the error; \<^verbatim>\<open>removed := g.items[id]\<close> is
  the nil interface (\<open>None\<close>) when \<open>id\<close> has no binding.
\<close>

definition orderedIDs_Swap :: "('a ider_scheme) orderedIDs \<Rightarrow> string \<Rightarrow> 'a ider_scheme
    \<Rightarrow> ('a ider_scheme option \<times> error option) \<times> ('a ider_scheme) orderedIDs" where
  "orderedIDs_Swap g id' m =
     (if length id' = 0 then ((None, Some SwapFromEmptyID), g)
      else (let iderID = ID m in
        if length iderID = 0 then ((None, Some SwapToEmptyID), g)
        else if orderedIDs_IsSlot g id' \<and> id' \<noteq> iderID then ((None, Some SwapSlotMismatch), g)
        else (case relativeOrder_Swap (g_order g) id' iderID of
                (Some err, s') \<Rightarrow> ((None, Some err), g\<lparr>g_order := s'\<rparr>)
              | (None, s') \<Rightarrow>
                  (let removed = items g id' in
                   ((removed, None),
                    g\<lparr>g_order := s', items := ((items g)(id' := None))(iderID \<mapsto> m)\<rparr>)))))"

definition orderedIDs_Remove :: "'m orderedIDs \<Rightarrow> string \<Rightarrow> error option \<times> 'm orderedIDs" where
  "orderedIDs_Remove g id' =
     (if length id' = 0 then (Some RemoveEmptyID, g)
      else if \<not> orderedIDs_IsSlot g id' then
        (case relativeOrder_Remove (g_order g) id' of
           (Some err, s') \<Rightarrow> (Some err, g\<lparr>g_order := s'\<rparr>)
         | (None, s') \<Rightarrow> (None, g\<lparr>g_order := s', items := (items g)(id' := None)\<rparr>))
      else (None, g\<lparr>items := (items g)(id' := None)\<rparr>))"

definition orderedIDs_List :: "'m orderedIDs \<Rightarrow> string list" where
  "orderedIDs_List g = relativeOrder_List (g_order g)"

definition orderedIDs_Clear :: "'m orderedIDs \<Rightarrow> 'm orderedIDs" where
  "orderedIDs_Clear g = \<lparr>g_order = relativeOrder_Clear (g_order g), items = Map.empty, slots = {}\<rparr>"

text \<open>The loop of \<^verbatim>\<open>GetOrder\<close> over the order, \<open>ordered\<close> being the slice appended to.\<close>

fun orderedIDs_GetOrder_loop :: "(string \<rightharpoonup> 'm) \<Rightarrow> string list \<Rightarrow> 'm list \<Rightarrow> 'm list" where
  "orderedIDs_GetOrder_loop its [] ordered = ordered"
| "orderedIDs_GetOrder_loop its (x # xs) ordered =
     (case its x of
        Some m \<Rightarrow> orderedIDs_GetOrder_loop its xs (ordered @ [m])
      | None \<Rightarrow> orderedIDs_GetOrder_loop its xs ordered)"

definition orderedIDs_GetOrder :: "'m orderedIDs \<Rightarrow> 'm list" where
  "orderedIDs_GetOrder g = orderedIDs_GetOrder_loop (items g) (relativeOrder_List (g_order g)) []"


subsection \<open>Sequences of operations\<close>

text \<open>
  A caller's sequence of \<^verbatim>\<open>Add\<close>, \<^verbatim>\<open>Insert\<close> and \<^verbatim>\<open>Remove\<close> calls on one registry,
  each call leaving the registry the next one finds, whether it returned an error or not.
\<close>

datatype 'm registry_op =
    OpAdd 'm RelativePosition
  | OpInsert 'm string RelativePosition
  | OpRemove string

fun apply_op :: "('a ider_scheme) orderedIDs \<Rightarrow> ('a ider_scheme) registry_op
    \<Rightarrow> ('a ider_scheme) orderedIDs" where
  "apply_op g (OpAdd m pos) = snd (orderedIDs_Add g m pos)"
| "apply_op g (OpInsert m relativeTo pos) = snd (orderedIDs_Insert g m relativeTo pos)"
| "apply_op g (OpRemove id') = snd (orderedIDs_Remove g id')"

definition run_ops :: "('a ider_scheme) registry_op list \<Rightarrow> ('a ider_scheme) orderedIDs" where
  "run_ops ops = foldl apply_op newOrderedIDs ops"

text \<open>
  What every registry reached by such a sequence satisfies: no slot, no identifier twice,
  no empty identifier.
\<close>

definition plain :: "'m orderedIDs \<Rightarrow> bool" where
  "plain g = (slots g = {} \<and> distinct (orderedIDs_List g) \<and> [] \<notin> set (orderedIDs_List g))"

section \<open>The deserialize step (middleware/step\_deserialize.go)\<close>

text \<open>
  \<^verbatim>\<open>interface{}\<close> values are \<open>'v option\<close>, \<open>None\<close> being nil; Go errors are \<open>'e option\<close>.
  A handler call is a function of the world \<open>'w\<close> it runs in, returning its results and
  the world it leaves, so that the calls a chain makes can be observed.
\<close>

record 'v DeserializeInput =
  Request :: "'v option"

record 'v DeserializeOutput =
  RawResponse :: "'v option"
  Result :: "'v option"

type_synonym ('c, 'v, 'md, 'e, 'w) Handler =
  "'c \<Rightarrow> 'v option \<Rightarrow> 'w \<Rightarrow> ('v option \<times> 'md \<times> 'e option) \<times> 'w"

type_synonym ('c, 'v, 'md, 'e, 'w) DeserializeHandler =
  "'c \<Rightarrow> 'v DeserializeInput \<Rightarrow> 'w \<Rightarrow> ('v DeserializeOutput \<times> 'md \<times> 'e option) \<times> 'w"

record ('c, 'v, 'md, 'e, 'w) DeserializeMiddleware = ider +
  HandleDeserialize ::
    "'c \<Rightarrow> 'v DeserializeInput \<Rightarrow> ('c, 'v, 'md, 'e, 'w) DeserializeHandler
      \<Rightarrow> 'w \<Rightarrow> ('v DeserializeOutput \<times> 'md \<times> 'e option) \<times> 'w"

definition DeserializeMiddlewareFunc ::
  "string \<Rightarrow> ('c \<Rightarrow> 'v DeserializeInput \<Rightarrow> ('c, 'v, 'md, 'e, 'w) DeserializeHandler
      \<Rightarrow> 'w \<Rightarrow> ('v DeserializeOutput \<times> 'md \<times> 'e option) \<times> 'w)
    \<Rightarrow> ('c, 'v, 'md, 'e, 'w) DeserializeMiddleware" where
  "DeserializeMiddlewareFunc id' fn = \<lparr>ID = id', HandleDeserialize = fn\<rparr>"

record ('c, 'v, 'md, 'e, 'w) DeserializeStep =
  ids :: "(('c, 'v, 'md, 'e, 'w) DeserializeMiddleware) orderedIDs"

definition NewDeserializeStep :: "('c, 'v, 'md, 'e, 'w) DeserializeStep" where
  "NewDeserializeStep = \<lparr>ids = newOrderedIDs\<rparr>"

definition DeserializeStep_ID :: "('c, 'v, 'md, 'e, 'w) DeserializeStep \<Rightarrow> string" where
  "DeserializeStep_ID s = ''Deserialize stack step''"

definition deserializeWrapHandler ::
  "('c, 'v, 'md, 'e, 'w) Handler \<Rightarrow> ('c, 'v, 'md, 'e, 'w) DeserializeHandler" where
  "deserializeWrapHandler Next = (\<lambda>ctx in' w.
     (case Next ctx (Request in') w of
        ((resp, metadata, err), w') \<Rightarrow>
          ((\<lparr>RawResponse = resp, Result = None\<rparr>, metadata, err), w')))"

definition decoratedDeserializeHandler ::
  "('c, 'v, 'md, 'e, 'w) DeserializeHandler \<Rightarrow> ('c, 'v, 'md, 'e, 'w) DeserializeMiddleware
    \<Rightarrow> ('c, 'v, 'md, 'e, 'w) DeserializeHandler" where
  "decoratedDeserializeHandler Next With = (\<lambda>ctx in'. HandleDeserialize With ctx in' Next)"

text \<open>
  The loop \<^verbatim>\<open>for i := len(order) - 1; i >= 0; i--\<close> of \<^verbatim>\<open>HandleMiddleware\<close>; the
  second argument is \<open>i + 1\<close>.
\<close>

fun HandleMiddleware_loop ::
  "('c, 'v, 'md, 'e, 'w) DeserializeMiddleware list \<Rightarrow> nat
    \<Rightarrow> ('c, 'v, 'md, 'e, 'w) DeserializeHandler \<Rightarrow> ('c, 'v, 'md, 'e, 'w) DeserializeHandler" where
  "HandleMiddleware_loop order' 0 h = h"
| "HandleMiddleware_loop order' (Suc i) h =
     HandleMiddleware_loop order' i (decoratedDeserializeHandler h (order' ! i))"

definition DeserializeStep_HandleMiddleware ::
  "('c, 'v, 'md, 'e, 'w) DeserializeStep \<Rightarrow> 'c \<Rightarrow> 'v option \<Rightarrow> ('c, 'v, 'md, 'e, 'w) Handler
    \<Rightarrow> 'w \<Rightarrow> ('v option \<times> 'md \<times> 'e option) \<times> 'w" where
  "DeserializeStep_HandleMiddleware s ctx in' next' w =
     (let order' = orderedIDs_GetOrder (ids s);
          h = HandleMiddleware_loop order' (length order') (deserializeWrapHandler next');
          sIn = \<lparr>Request = in'\<rparr>
      in (case h ctx sIn w of
            ((res, metadata, err), w') \<Rightarrow> ((Result res, metadata, err), w')))"

definition DeserializeStep_Get ::
  "('c, 'v, 'md, 'e, 'w) DeserializeStep \<Rightarrow> string
    \<Rightarrow> ('c, 'v, 'md, 'e, 'w) DeserializeMiddleware option \<times> bool" where
  "DeserializeStep_Get s id' =
     (case orderedIDs_Get (ids s) id' of
        (get, ok) \<Rightarrow> if \<not> ok then (None, False) else (get, ok))"

definition DeserializeStep_Add ::
  "('c, 'v, 'md, 'e, 'w) DeserializeStep \<Rightarrow> ('c, 'v, 'md, 'e, 'w) DeserializeMiddleware
    \<Rightarrow> RelativePosition \<Rightarrow> error option \<times> ('c, 'v, 'md, 'e, 'w) DeserializeStep" where
  "DeserializeStep_Add s m pos =
     (case orderedIDs_Add (ids s) m pos of (err, g') \<Rightarrow> (err, s\<lparr>ids := g'\<rparr>))"

definition DeserializeStep_AddSlot ::
  "('c, 'v, 'md, 'e, 'w) DeserializeStep \<Rightarrow> string \<Rightarrow> RelativePosition
    \<Rightarrow> error option \<times> ('c, 'v, 'md, 'e, 'w) DeserializeStep" where
  "DeserializeStep_AddSlot s id' pos =
     (case orderedIDs_AddSlot (ids s) id' pos of (err, g') \<Rightarrow> (err, s\<lparr>ids := g'\<rparr>))"

definition DeserializeStep_Insert ::
  "('c, 'v, 'md, 'e, 'w) DeserializeStep \<Rightarrow> ('c, 'v, 'md, 'e, 'w) DeserializeMiddleware
    \<Rightarrow> string \<Rightarrow> RelativePosition
    \<Rightarrow> error option \<times> ('c, 'v, 'md, 'e, 'w) DeserializeStep" where
  "DeserializeStep_Insert s m relativeTo pos =
     (case orderedIDs_Insert (ids s) m relativeTo pos of (err, g') \<Rightarrow> (err, s\<lparr>ids := g'\<rparr>))"

definition DeserializeStep_InsertSlot ::
  "('c, 'v, 'md, 'e, 'w) DeserializeStep \<Rightarrow> string \<Rightarrow> string \<Rightarrow> RelativePosition
    \<Rightarrow> error option \<times> ('c, 'v, 'md, 'e, 'w) DeserializeStep" where
  "DeserializeStep_InsertSlot s id' relativeTo pos =
     (case orderedIDs_InsertSlot (ids s) id' relativeTo pos of
        (err, g') \<Rightarrow> (err, s\<lparr>ids := g'\<rparr>))"

text \<open>
  \<^verbatim>\<open>removed.(DeserializeMiddleware)\<close> is the one-result form of the type assertion: it
  panics on the nil interface value.
\<close>

definition DeserializeStep_Swap ::
  "('c, 'v, 'md, 'e, 'w) DeserializeStep \<Rightarrow> string \<Rightarrow> ('c, 'v, 'md, 'e, 'w) DeserializeMiddleware
    \<Rightarrow> (('c, 'v, 'md, 'e, 'w) DeserializeMiddleware option \<times> error option)
        \<times> ('c, 'v, 'md, 'e, 'w) DeserializeStep" where
  "DeserializeStep_Swap s id' m =
     (case orderedIDs_Swap (ids s) id' m of
        ((removed, Some err), g') \<Rightarrow> ((None, Some err), s\<lparr>ids := g'\<rparr>)
      | ((removed, None), g') \<Rightarrow>
          (case removed of
             None \<Rightarrow> ((None, Some PanicNilInterfaceConversion), s\<lparr>ids := g'\<rparr>)
           | Some r \<Rightarrow> ((Some r, None), s\<lparr>ids := g'\<rparr>)))"

definition DeserializeStep_Remove ::
  "('c, 'v, 'md, 'e, 'w) DeserializeStep \<Rightarrow> string
    \<Rightarrow> error option \<times> ('c, 'v, 'md, 'e, 'w) DeserializeStep" where
  "DeserializeStep_Remove s id' =
     (case orderedIDs_Remove (ids s) id' of (err, g') \<Rightarrow> (err, s\<lparr>ids := g'\<rparr>))"

definition DeserializeStep_List :: "('c, 'v, 'md, 'e, 'w) DeserializeStep \<Rightarrow> string list" where
  "DeserializeStep_List s = orderedIDs_List (ids s)"

definition DeserializeStep_Clear ::
  "('c, 'v, 'md, 'e, 'w) DeserializeStep \<Rightarrow> ('c, 'v, 'md, 'e, 'w) DeserializeStep" where
  "DeserializeStep_Clear s = s\<lparr>ids := orderedIDs_Clear (ids s)\<rparr>"

subsection \<open>Recording stubs\<close>

text \<open>
  Test doubles for the chain: the world is the list of the names called so far. A
  forwarding middleware records its name and calls its next handler; a short-circuiting
  one records its name and returns without calling it; the terminal handler records its
  name and returns a response.
\<close>

definition forwarding :: "string \<Rightarrow> ('c, 'v, unit, 'e, string list) DeserializeMiddleware" where
  "forwarding n = DeserializeMiddlewareFunc n (\<lambda>ctx in' next' w. next' ctx in' (w @ [n]))"

definition short_circuiting ::
  "string \<Rightarrow> ('c, 'v, unit, 'e, string list) DeserializeMiddleware" where
  "short_circuiting n = DeserializeMiddlewareFunc n
     (\<lambda>ctx in' next' w. ((\<lparr>RawResponse = None, Result = None\<rparr>, (), None), w @ [n]))"

definition terminal :: "string \<Rightarrow> 'v option \<Rightarrow> ('c, 'v, unit, 'e, string list) Handler" where
  "terminal n resp = (\<lambda>ctx in' w. ((resp, (), None), w @ [n]))"


subsection \<open>Example registries and steps\<close>

text \<open>
  Concrete inputs on which the properties below are evaluated: a registry with the one
  unfilled slot \<open>X\<close>, the same registry after \<^verbatim>\<open>Add\<close> has filled the slot or has
  added \<open>A\<close> behind it, the registry after adding \<open>A\<close> and \<open>B\<close>, a step with the
  unfilled slot \<open>X\<close>, and two steps holding three stubs each.
\<close>

type_synonym stub_middleware = "(unit, string, unit, unit, string list) DeserializeMiddleware"

definition slot_X :: "stub_middleware orderedIDs" where
  "slot_X = snd (orderedIDs_AddSlot newOrderedIDs ''X'' After)"

definition filled_X :: "stub_middleware orderedIDs" where
  "filled_X = snd (orderedIDs_Add slot_X (forwarding ''X'') After)"

definition slot_X_then_A :: "stub_middleware orderedIDs" where
  "slot_X_then_A = snd (orderedIDs_Add slot_X (forwarding ''A'') After)"

definition ops_AB :: "stub_middleware registry_op list" where
  "ops_AB = [OpAdd (forwarding ''A'') After, OpAdd (forwarding ''B'') After]"

definition step_slot_X :: "(unit, string, unit, unit, string list) DeserializeStep" where
  "step_slot_X = snd (DeserializeStep_AddSlot NewDeserializeStep ''X'' After)"

definition step_ABC :: "(unit, string, unit, unit, string list) DeserializeStep" where
  "step_ABC =
     snd (DeserializeStep_Add
       (snd (DeserializeStep_Add
         (snd (DeserializeStep_Add NewDeserializeStep (forwarding ''A'') After))
         (forwarding ''B'') After))
       (forwarding ''C'') After)"

definition step_AsC :: "(unit, string, unit, unit, string list) DeserializeStep" where
  "step_AsC =
     snd (DeserializeStep_Add
       (snd (DeserializeStep_Add
         (snd (DeserializeStep_Add NewDeserializeStep (forwarding ''A'') After))
         (short_circuiting ''B'') After))
       (forwarding ''C'') After)"

section \<open>Waiters (the Go code written by the Waiters code generator)\<close>

text \<open>
  The generator writes, for each waiter, an invoker \<^verbatim>\<open>Wait\<close> and a state function
  \<^verbatim>\<open>...StateRetryable\<close>. The definitions below are the Go text that
  \<^verbatim>\<open>generateWaiterInvoker\<close>, \<^verbatim>\<open>generateRetryable\<close>, \<^verbatim>\<open>writeWaiterComparator\<close> and
  \<^verbatim>\<open>writeMatchedAcceptorReturn\<close> emit, statement by statement. Errors of the
  collaborators (the operation, the path search, the delay computation, the sleep) are
  values of \<open>'e\<close>.
\<close>

datatype 'e waiter_error =
    MaxWaitTimeNotPositive
  | ExceededMaxWaitTime
  | ComputingWaiterDelay 'e
  | RequestCancelledWhileWaiting 'e
  | EvaluatingWaiterState 'e
  | ComparatorExpectedString
  | ComparatorExpectedBool
  | ComparatorExpectedStringSlice
  | ParsingBoolean
  | ExpectedAPIError
  | StateTransitionedToFailure
  | Foreign 'e

subsection \<open>The state function\<close>





text \<open>
  The dynamic type of the value a path search returns, as far as the comparators'
  type assertions tell values apart.
\<close>

datatype go_value = String string | Bool bool | StringSlice "string list" | OtherValue










subsection \<open>The invoker\<close>

text \<open>
  \<^verbatim>\<open>time.Duration\<close> and the attempt counter are \<^verbatim>\<open>int64\<close>: 64-bit words read as
  signed. A context carries its deadline; times are nanoseconds as integers.
\<close>

type_synonym Duration = "64 word"

record Context =
  deadline :: "int option"

definition WithDeadline :: "Context \<Rightarrow> int \<Rightarrow> Context" where
  "WithDeadline ctx d =
     (case deadline ctx of
        None \<Rightarrow> ctx\<lparr>deadline := Some d\<rparr>
      | Some cur \<Rightarrow> if cur \<le> d then ctx else ctx\<lparr>deadline := Some d\<rparr>)"

record ('p, 'o, 'e, 'a, 'w) WaiterOptions =
  APIOptions :: "'a list"
  MinDelay :: Duration
  MaxDelay :: Duration
  LogWaitAttempts :: bool
  Retryable :: "Context \<Rightarrow> 'p \<Rightarrow> 'o \<Rightarrow> 'e option \<Rightarrow> 'w \<Rightarrow> (bool \<times> 'e waiter_error option) \<times> 'w"

text \<open>
  The waiter client: the API client's operation (called with the context, the input and
  the API options the call appends) and the waiter's options.
\<close>

record ('p, 'o, 'e, 'a, 'w) Waiter =
  client :: "Context \<Rightarrow> 'p \<Rightarrow> 'a list \<Rightarrow> 'w \<Rightarrow> ('o \<times> 'e option) \<times> 'w"
  options :: "('p, 'o, 'e, 'a, 'w) WaiterOptions"

text \<open>
  The library functions the invoker calls: \<^verbatim>\<open>time.Now\<close>, \<^verbatim>\<open>waiters.ComputeDelay\<close>,
  \<^verbatim>\<open>smithytime.SleepWithContext\<close> and the logger's \<^verbatim>\<open>Logf\<close> (given the attempt count it
  prints).
\<close>

record ('e, 'w) waiter_env =
  Now :: "'w \<Rightarrow> int"
  ComputeDelay :: "Duration \<Rightarrow> Duration \<Rightarrow> Duration \<Rightarrow> 64 word \<Rightarrow> 'e + Duration"
  SleepWithContext :: "Context \<Rightarrow> Duration \<Rightarrow> 'w \<Rightarrow> 'e option \<times> 'w"
  Logf :: "64 word \<Rightarrow> 'w \<Rightarrow> 'w"

text \<open>
  The \<^verbatim>\<open>for\<close> loop of \<^verbatim>\<open>Wait\<close>, on the loop's variables \<open>attempt\<close> and
  \<open>remainingTime\<close> and the world. It need not terminate: \<open>None\<close> is a run that never
  returns.
\<close>

partial_function (option) Wait_loop ::
  "('e, 'w) waiter_env \<Rightarrow> ('p, 'o, 'e, 'a, 'w) Waiter \<Rightarrow> ('p, 'o, 'e, 'a, 'w) WaiterOptions
    \<Rightarrow> Context \<Rightarrow> 'p \<Rightarrow> 64 word \<Rightarrow> Duration \<Rightarrow> 'w \<Rightarrow> ('e waiter_error option \<times> 'w) option" where
  "Wait_loop env wtr opts ctx params attempt remainingTime w =
     (if sint remainingTime \<le> 0 then Some (Some ExceededMaxWaitTime, w)
      else
        (case (if 0 < sint attempt then
                 (case ComputeDelay env (MinDelay opts) (MaxDelay opts) remainingTime attempt of
                    Inl err \<Rightarrow> Inl (ComputingWaiterDelay err, w)
                  | Inr delay \<Rightarrow>
                      (case SleepWithContext env ctx delay w of
                         (Some err, w') \<Rightarrow> Inl (RequestCancelledWhileWaiting err, w')
                       | (None, w') \<Rightarrow> Inr (remainingTime - delay, w')))
               else Inr (remainingTime, w)) of
           Inl (e, w') \<Rightarrow> Some (Some e, w')
         | Inr (remainingTime', w1) \<Rightarrow>
             (let w2 = (if LogWaitAttempts opts then Logf env (attempt + 1) w1 else w1) in
              case client wtr ctx params (APIOptions opts) w2 of
                ((out, err), w3) \<Rightarrow>
                  (case Retryable opts ctx params out err w3 of
                     ((retryable, Some e), w4) \<Rightarrow> Some (Some e, w4)
                   | ((retryable, None), w4) \<Rightarrow>
                       if \<not> retryable then Some (None, w4)
                       else Wait_loop env wtr opts ctx params (attempt + 1) remainingTime' w4))))"

text \<open>
  \<^verbatim>\<open>Wait\<close>. The block written for \<^verbatim>\<open>maxWaitTime == 0\<close> holds the one statement
  \<^verbatim>\<open>fmt.Errorf("maximum wait time for waiter must be greater than zero")\<close>, with no
  \<^verbatim>\<open>return\<close>: the error is built and dropped (\<open>unused\<close>), and the function goes on.
\<close>

definition Wait ::
  "('e, 'w) waiter_env \<Rightarrow> ('p, 'o, 'e, 'a, 'w) Waiter \<Rightarrow> Context \<Rightarrow> 'p \<Rightarrow> Duration
    \<Rightarrow> (('p, 'o, 'e, 'a, 'w) WaiterOptions \<Rightarrow> ('p, 'o, 'e, 'a, 'w) WaiterOptions) list
    \<Rightarrow> 'w \<Rightarrow> ('e waiter_error option \<times> 'w) option" where
  "Wait env wtr ctx params maxWaitTime optFns w =
     (let unused = (if maxWaitTime = 0 then Some (MaxWaitTimeNotPositive :: 'e waiter_error)
                    else None);
          opts = fold (\<lambda>fn opts. fn opts) optFns (options wtr);
          attempt = 0;
          remainingTime = maxWaitTime;
          deadline' = Now env w + sint maxWaitTime;
          ctx = WithDeadline ctx deadline'
      in Wait_loop env wtr opts ctx params attempt remainingTime w)"

subsection \<open>An example waiter\<close>




section \<open>Properties of the ordered groups\<close>

lemma has_loop_shift:
  "has_loop (pre @ ys) id' (length pre) =
     (if id' \<in> set ys then (length pre + length (takeWhile (\<lambda>x. x \<noteq> id') ys), True)
      else (0, False))"
proof (induction ys arbitrary: pre)
  case Nil
  show ?case by (subst has_loop.simps) simp
next
  case (Cons y ys)
  have step: "has_loop (pre @ y # ys) id' (length pre) =
      (if y = id' then (length pre, True) else has_loop ((pre @ [y]) @ ys) id' (length (pre @ [y])))"
    by (subst has_loop.simps) simp
  show ?case
    unfolding step Cons.IH [of "pre @ [y]"] by auto
qed

lemma has_eq:
  "has s id' =
     (if id' \<in> set (order s) then (length (takeWhile (\<lambda>x. x \<noteq> id') (order s)), True)
      else (0, False))"
  using has_loop_shift [of "[]" "order s" id'] by (simp add: has_def)

lemma has_found:
  assumes "order s = pre @ id' # post" and "id' \<notin> set pre"
  shows "has s id' = (length pre, True)"
proof -
  have "takeWhile (\<lambda>x. x \<noteq> id') (pre @ id' # post) = pre"
    using assms(2) by (induction pre) auto
  then show ?thesis using assms(1) by (simp add: has_eq)
qed

lemma has_absent: "id' \<notin> set (order s) \<Longrightarrow> has s id' = (0, False)"
  by (simp add: has_eq)

lemma split_first:
  assumes "x \<in> set xs"
  shows "\<exists>pre post. xs = pre @ x # post \<and> x \<notin> set pre"
  using assms by (rule split_list_first)

lemma copy_within_insert:
  assumes "i \<le> length xs"
  shows "(copy_within (xs @ [e]) (Suc i) i)[i := y] = take i xs @ y # drop i xs"
proof -
  have "copy_within (xs @ [e]) (Suc i) i = take (i + 1) (xs @ [e]) @ drop i xs"
    using assms by (auto simp: copy_within_def Let_def min_def)
  moreover have "(take (i + 1) (xs @ [e]) @ drop i xs)[i := y] = take i xs @ y # drop i xs"
    using assms
    by (cases "i < length xs") (simp_all add: take_Suc_conv_app_nth list_update_append nth_append)
  ultimately show ?thesis by simp
qed


lemma Before_neq_After: "Before \<noteq> After"
  by (simp add: Before_def After_def)

lemma insert_at_Before:
  assumes "i \<le> length (order s)"
  shows "insert_at s i id' Before = (None, s\<lparr>order := take i (order s) @ id' # drop i (order s)\<rparr>)"
  using assms by (simp add: insert_at_def Let_def copy_within_insert)

lemma insert_at_After:
  assumes "i < length (order s)"
  shows "insert_at s i id' After =
    (None, s\<lparr>order := take (Suc i) (order s) @ id' # drop (Suc i) (order s)\<rparr>)"
proof (cases "Suc i = length (order s)")
  case True
  then show ?thesis
    using Before_neq_After by (auto simp: insert_at_def)
next
  case False
  then have "int i \<noteq> int (length (order s)) - 1" by linarith
  then show ?thesis
    using assms Before_neq_After by (auto simp: insert_at_def)
qed

lemma relativeOrder_Add_present:
  "id' \<in> set (order s) \<Longrightarrow> relativeOrder_Add s id' pos = (Some (AlreadyExists id'), s)"
  by (simp add: relativeOrder_Add_def has_eq)

lemma relativeOrder_Add_absent:
  assumes "id' \<notin> set (order s)"
  shows "relativeOrder_Add s id' pos =
    (if pos = Before then (None, s\<lparr>order := id' # order s\<rparr>)
     else if pos = After then (None, s\<lparr>order := order s @ [id']\<rparr>)
     else (Some (InvalidPosition pos), s))"
  using assms by (simp add: relativeOrder_Add_def has_eq insert_at_Before)

lemma relativeOrder_Insert_present:
  "id' \<in> set (order s) \<Longrightarrow>
     relativeOrder_Insert s id' relativeTo pos = (Some (AlreadyExists id'), s)"
  by (simp add: relativeOrder_Insert_def has_eq)

lemma relativeOrder_Insert_no_anchor:
  "id' \<notin> set (order s) \<Longrightarrow> relativeTo \<notin> set (order s) \<Longrightarrow>
     relativeOrder_Insert s id' relativeTo pos = (Some (NotFound relativeTo), s)"
  by (simp add: relativeOrder_Insert_def has_eq)

lemma relativeOrder_Insert_anchor:
  assumes "id' \<notin> set (order s)" and "order s = pre @ x # post" and "x \<notin> set pre"
  shows "relativeOrder_Insert s id' x pos =
    (if pos = Before then (None, s\<lparr>order := pre @ id' # x # post\<rparr>)
     else if pos = After then (None, s\<lparr>order := pre @ x # id' # post\<rparr>)
     else (Some (InvalidPosition pos), s))"
proof -
  have h: "has s x = (length pre, True)"
    using assms(2,3) by (rule has_found)
  have n: "has s id' = (0, False)"
    using assms(1) by (rule has_absent)
  have lt: "length pre < length (order s)" using assms(2) by simp
  show ?thesis
  proof (cases "pos = Before")
    case True
    then show ?thesis
      using insert_at_Before [of "length pre" s id'] lt assms(2)
      by (simp add: relativeOrder_Insert_def h n)
  next
    case nb: False
    show ?thesis
    proof (cases "pos = After")
      case True
      then show ?thesis
        using insert_at_After [OF lt, of id'] assms(2) nb
        by (simp add: relativeOrder_Insert_def h n)
    next
      case False
      then show ?thesis
        using nb by (simp add: relativeOrder_Insert_def h n insert_at_def)
    qed
  qed
qed

lemma relativeOrder_Remove_absent:
  "id' \<notin> set (order s) \<Longrightarrow> relativeOrder_Remove s id' = (Some (NotFound id'), s)"
  by (simp add: relativeOrder_Remove_def has_eq)

lemma relativeOrder_Remove_present:
  assumes "order s = pre @ x # post" and "x \<notin> set pre"
  shows "relativeOrder_Remove s x = (None, s\<lparr>order := pre @ post\<rparr>)"
  using assms by (simp add: relativeOrder_Remove_def has_found [OF assms])

lemma relativeOrder_Swap_absent:
  "id' \<notin> set (order s) \<Longrightarrow> relativeOrder_Swap s id' to = (Some (NotFound id'), s)"
  by (simp add: relativeOrder_Swap_def has_eq)

lemma relativeOrder_Swap_clash:
  "id' \<in> set (order s) \<Longrightarrow> to \<in> set (order s) \<Longrightarrow> id' \<noteq> to \<Longrightarrow>
     relativeOrder_Swap s id' to = (Some (AlreadyExists to), s)"
  by (simp add: relativeOrder_Swap_def has_eq)

lemma relativeOrder_Swap_present:
  assumes "order s = pre @ x # post" and "x \<notin> set pre" and "to = x \<or> to \<notin> set (order s)"
  shows "relativeOrder_Swap s x to = (None, s\<lparr>order := pre @ to # post\<rparr>)"
proof -
  have "snd (has s to) \<longrightarrow> to = x"
    using assms(3) by (auto simp: has_eq)
  then show ?thesis
    using assms(1) by (auto simp: relativeOrder_Swap_def has_found [OF assms(1,2)])
qed

text \<open>
  Claim C7. For every order containing \<open>id\<close> and every \<open>newID\<close> that is \<open>id\<close> itself or
  not in the order, \<^verbatim>\<open>Swap(id, newID)\<close> succeeds and writes \<open>newID\<close> at the index where
  \<open>id\<close> stood: the list after is the list before updated at that one index, its length
  is the same, and every other index holds what it held.
\<close>

theorem relativeOrder_Swap_in_place:
  assumes "id' \<in> set (relativeOrder_List s)"
    and "newID = id' \<or> newID \<notin> set (relativeOrder_List s)"
  shows "\<exists>i < length (relativeOrder_List s).
           relativeOrder_List s ! i = id' \<and>
           fst (relativeOrder_Swap s id' newID) = None \<and>
           relativeOrder_List (snd (relativeOrder_Swap s id' newID)) =
             (relativeOrder_List s)[i := newID] \<and>
           length (relativeOrder_List (snd (relativeOrder_Swap s id' newID))) =
             length (relativeOrder_List s) \<and>
           relativeOrder_List (snd (relativeOrder_Swap s id' newID)) ! i = newID \<and>
           (\<forall>j. j \<noteq> i \<longrightarrow>
              relativeOrder_List (snd (relativeOrder_Swap s id' newID)) ! j =
                relativeOrder_List s ! j)"
proof -
  from assms(1) obtain pre post where sp: "order s = pre @ id' # post" "id' \<notin> set pre"
    unfolding relativeOrder_List_def using split_list_first [of id' "order s"] by blast
  have sw: "relativeOrder_Swap s id' newID = (None, s\<lparr>order := pre @ newID # post\<rparr>)"
    using relativeOrder_Swap_present [OF sp] assms(2) by (simp add: relativeOrder_List_def)
  have upd: "(order s)[length pre := newID] = pre @ newID # post"
    using sp(1) by simp
  show ?thesis
  proof (intro exI [of _ "length pre"] conjI allI impI)
    show "length pre < length (relativeOrder_List s)"
      using sp(1) by (simp add: relativeOrder_List_def)
    show "relativeOrder_List s ! length pre = id'"
      using sp(1) by (simp add: relativeOrder_List_def)
    show "fst (relativeOrder_Swap s id' newID) = None" by (simp add: sw)
    show "relativeOrder_List (snd (relativeOrder_Swap s id' newID)) =
        (relativeOrder_List s)[length pre := newID]"
      by (simp add: sw relativeOrder_List_def upd)
    show "length (relativeOrder_List (snd (relativeOrder_Swap s id' newID))) =
        length (relativeOrder_List s)"
      using sp(1) by (simp add: sw relativeOrder_List_def)
    show "relativeOrder_List (snd (relativeOrder_Swap s id' newID)) ! length pre = newID"
      by (simp add: sw relativeOrder_List_def)
    fix j assume "j \<noteq> length pre"
    then show "relativeOrder_List (snd (relativeOrder_Swap s id' newID)) ! j =
        relativeOrder_List s ! j"
      using upd by (simp add: sw relativeOrder_List_def) (metis nth_list_update_neq)
  qed
qed

lemma orderedIDs_Add_not_slot:
  assumes "\<not> orderedIDs_IsSlot g (ID m)" and "ID m \<noteq> []"
  shows "orderedIDs_Add g m pos =
    (if ID m \<in> set (orderedIDs_List g) then (Some (AlreadyExists (ID m)), g)
     else if pos = Before then
       (None, g\<lparr>g_order := (g_order g)\<lparr>order := ID m # orderedIDs_List g\<rparr>,
                 items := (items g)(ID m \<mapsto> m)\<rparr>)
     else if pos = After then
       (None, g\<lparr>g_order := (g_order g)\<lparr>order := orderedIDs_List g @ [ID m]\<rparr>,
                 items := (items g)(ID m \<mapsto> m)\<rparr>)
     else (Some (InvalidPosition pos), g))"
  using assms
  by (simp add: orderedIDs_Add_def Let_def orderedIDs_List_def relativeOrder_List_def
      relativeOrder_Add_present relativeOrder_Add_absent)

lemma orderedIDs_Add_slot:
  assumes "orderedIDs_IsSlot g (ID m)" and "ID m \<noteq> []"
  shows "orderedIDs_Add g m pos = (None, g\<lparr>items := (items g)(ID m \<mapsto> m)\<rparr>)"
  using assms by (simp add: orderedIDs_Add_def Let_def)

lemma orderedIDs_Add_empty: "ID m = [] \<Longrightarrow> orderedIDs_Add g m pos = (Some EmptyID, g)"
  by (simp add: orderedIDs_Add_def)

text \<open>
  Claim C5. For every registry and every item whose id is already in the order and is not
  a slot, \<^verbatim>\<open>Add\<close> returns an error and the registry after the call is the registry
  before it: \<^verbatim>\<open>List()\<close>, the item bindings and the slot set are unchanged.
\<close>

theorem orderedIDs_Add_duplicate_unchanged:
  assumes "ID m \<in> set (orderedIDs_List g)" and "\<not> orderedIDs_IsSlot g (ID m)"
  shows "fst (orderedIDs_Add g m pos) \<noteq> None \<and>
         snd (orderedIDs_Add g m pos) = g \<and>
         orderedIDs_List (snd (orderedIDs_Add g m pos)) = orderedIDs_List g \<and>
         items (snd (orderedIDs_Add g m pos)) = items g \<and>
         slots (snd (orderedIDs_Add g m pos)) = slots g"
proof (cases "ID m = []")
  case True
  then show ?thesis by (simp add: orderedIDs_Add_empty)
next
  case False
  then show ?thesis using assms by (simp add: orderedIDs_Add_not_slot)
qed

text \<open>
  Claim C10. \<^verbatim>\<open>Add(item, pos)\<close> returns the already-exists error exactly when the
  item's id is non-empty, in the order and not a slot. For a non-empty id registered as a
  slot, \<^verbatim>\<open>Add\<close> succeeds whatever the registry binds to the id already and whatever
  \<open>pos\<close> is: \<^verbatim>\<open>List()\<close> and the slots are unchanged and the id is bound to the new item,
  the earlier binding being overwritten.
\<close>

theorem orderedIDs_Add_duplicate_iff:
  shows "((\<exists>x. fst (orderedIDs_Add g m pos) = Some (AlreadyExists x)) \<longleftrightarrow>
            (ID m \<noteq> [] \<and> ID m \<in> set (orderedIDs_List g) \<and> \<not> orderedIDs_IsSlot g (ID m))) \<and>
         (orderedIDs_IsSlot g (ID m) \<and> ID m \<noteq> [] \<longrightarrow>
            fst (orderedIDs_Add g m pos) = None \<and>
            orderedIDs_List (snd (orderedIDs_Add g m pos)) = orderedIDs_List g \<and>
            slots (snd (orderedIDs_Add g m pos)) = slots g \<and>
            items (snd (orderedIDs_Add g m pos)) = (items g)(ID m \<mapsto> m) \<and>
            orderedIDs_Get (snd (orderedIDs_Add g m pos)) (ID m) = (Some m, True))"
proof (intro conjI impI)
  show "(\<exists>x. fst (orderedIDs_Add g m pos) = Some (AlreadyExists x)) \<longleftrightarrow>
      (ID m \<noteq> [] \<and> ID m \<in> set (orderedIDs_List g) \<and> \<not> orderedIDs_IsSlot g (ID m))"
  proof (cases "ID m = []")
    case True
    then show ?thesis by (simp add: orderedIDs_Add_empty)
  next
    case ne: False
    show ?thesis
    proof (cases "orderedIDs_IsSlot g (ID m)")
      case True
      then show ?thesis using ne by (simp add: orderedIDs_Add_slot)
    next
      case False
      then show ?thesis using ne by (simp add: orderedIDs_Add_not_slot)
    qed
  qed
next
  assume a: "orderedIDs_IsSlot g (ID m) \<and> ID m \<noteq> []"
  then have eq: "orderedIDs_Add g m pos = (None, g\<lparr>items := (items g)(ID m \<mapsto> m)\<rparr>)"
    by (simp add: orderedIDs_Add_slot)
  show "fst (orderedIDs_Add g m pos) = None" by (simp add: eq)
  show "orderedIDs_List (snd (orderedIDs_Add g m pos)) = orderedIDs_List g"
    by (simp add: eq orderedIDs_List_def)
  show "slots (snd (orderedIDs_Add g m pos)) = slots g" by (simp add: eq)
  show "items (snd (orderedIDs_Add g m pos)) = (items g)(ID m \<mapsto> m)" by (simp add: eq)
  show "orderedIDs_Get (snd (orderedIDs_Add g m pos)) (ID m) = (Some m, True)"
    by (simp add: eq orderedIDs_Get_def)
qed

lemma orderedIDs_Insert_ok:
  assumes "ID m \<noteq> []" and "x \<noteq> []" and "ID m \<notin> set (orderedIDs_List g)"
    and "orderedIDs_List g = pre @ x # post" and "x \<notin> set pre"
  shows "orderedIDs_Insert g m x pos =
    (if pos = Before then
       (None, g\<lparr>g_order := (g_order g)\<lparr>order := pre @ ID m # x # post\<rparr>,
                 items := (items g)(ID m \<mapsto> m)\<rparr>)
     else if pos = After then
       (None, g\<lparr>g_order := (g_order g)\<lparr>order := pre @ x # ID m # post\<rparr>,
                 items := (items g)(ID m \<mapsto> m)\<rparr>)
     else (Some (InvalidPosition pos), g))"
proof -
  have a: "ID m \<notin> set (order (g_order g))" and b: "order (g_order g) = pre @ x # post"
    using assms(3,4) by (simp_all add: orderedIDs_List_def relativeOrder_List_def)
  show ?thesis
    using assms(1,2) by (simp add: orderedIDs_Insert_def relativeOrder_Insert_anchor [OF a b assms(5)])
qed

lemma orderedIDs_Insert_failed:
  assumes "ID m = [] \<or> x = [] \<or> ID m \<in> set (orderedIDs_List g) \<or> x \<notin> set (orderedIDs_List g)"
  shows "snd (orderedIDs_Insert g m x pos) = g"
proof (cases "ID m = [] \<or> x = []")
  case True
  then show ?thesis by (auto simp: orderedIDs_Insert_def)
next
  case False
  then have c: "ID m \<in> set (order (g_order g)) \<or> x \<notin> set (order (g_order g))"
    using assms by (simp add: orderedIDs_List_def relativeOrder_List_def)
  show ?thesis
  proof (cases "ID m \<in> set (order (g_order g))")
    case True
    then show ?thesis
      using False by (simp add: orderedIDs_Insert_def relativeOrder_Insert_present)
  next
    case nf: False
    then have "x \<notin> set (order (g_order g))" using c by simp
    then show ?thesis
      using False nf by (simp add: orderedIDs_Insert_def relativeOrder_Insert_no_anchor)
  qed
qed

lemma orderedIDs_Remove_slot:
  assumes "orderedIDs_IsSlot g id'" and "id' \<noteq> []"
  shows "orderedIDs_Remove g id' = (None, g\<lparr>items := (items g)(id' := None)\<rparr>)"
  using assms by (simp add: orderedIDs_Remove_def)

lemma orderedIDs_Remove_ok:
  assumes "\<not> orderedIDs_IsSlot g x" and "x \<noteq> []"
    and "orderedIDs_List g = pre @ x # post" and "x \<notin> set pre"
  shows "orderedIDs_Remove g x =
    (None, g\<lparr>g_order := (g_order g)\<lparr>order := pre @ post\<rparr>, items := (items g)(x := None)\<rparr>)"
proof -
  have b: "order (g_order g) = pre @ x # post"
    using assms(3) by (simp add: orderedIDs_List_def relativeOrder_List_def)
  show ?thesis
    using assms(1,2) by (simp add: orderedIDs_Remove_def relativeOrder_Remove_present [OF b assms(4)])
qed

lemma orderedIDs_Remove_failed:
  assumes "\<not> orderedIDs_IsSlot g x" and "x = [] \<or> x \<notin> set (orderedIDs_List g)"
  shows "snd (orderedIDs_Remove g x) = g"
  using assms
  by (auto simp: orderedIDs_Remove_def orderedIDs_List_def relativeOrder_List_def
      relativeOrder_Remove_absent)


lemma List_update [simp]:
  "orderedIDs_List (g\<lparr>g_order := (g_order g)\<lparr>order := xs\<rparr>, items := its\<rparr>) = xs"
  by (simp add: orderedIDs_List_def relativeOrder_List_def)

lemma plain_apply_op:
  assumes "plain g"
  shows "plain (apply_op g op)"
proof (cases op)
  case (OpAdd m pos)
  show ?thesis
  proof (cases "ID m = []")
    case True
    then show ?thesis using assms OpAdd by (simp add: orderedIDs_Add_empty)
  next
    case False
    moreover have "\<not> orderedIDs_IsSlot g (ID m)"
      using assms by (simp add: plain_def orderedIDs_IsSlot_def)
    ultimately show ?thesis
      using assms OpAdd by (auto simp: orderedIDs_Add_not_slot plain_def)
  qed
next
  case (OpInsert m x pos)
  show ?thesis
  proof (cases "ID m = [] \<or> x = [] \<or> ID m \<in> set (orderedIDs_List g) \<or> x \<notin> set (orderedIDs_List g)")
    case True
    then show ?thesis using assms OpInsert by (simp add: orderedIDs_Insert_failed)
  next
    case False
    then obtain pre post where sp: "orderedIDs_List g = pre @ x # post" "x \<notin> set pre"
      using split_list_first [of x "orderedIDs_List g"] by blast
    have ok: "ID m \<noteq> []" "x \<noteq> []" "ID m \<notin> set (orderedIDs_List g)"
      using False by simp_all
    show ?thesis
      using assms OpInsert sp ok
      by (auto simp: orderedIDs_Insert_ok [OF ok sp] plain_def)
  qed
next
  case (OpRemove x)
  have ns: "\<not> orderedIDs_IsSlot g x"
    using assms by (simp add: plain_def orderedIDs_IsSlot_def)
  show ?thesis
  proof (cases "x = [] \<or> x \<notin> set (orderedIDs_List g)")
    case True
    then show ?thesis using assms OpRemove ns by (simp add: orderedIDs_Remove_failed)
  next
    case False
    then obtain pre post where sp: "orderedIDs_List g = pre @ x # post" "x \<notin> set pre"
      using split_list_first [of x "orderedIDs_List g"] by blast
    have ne: "x \<noteq> []" using False by simp
    show ?thesis
      using assms OpRemove sp
      by (auto simp: orderedIDs_Remove_ok [OF ns ne sp] plain_def)
  qed
qed

lemma plain_run_ops: "plain (run_ops ops)"
proof (induction ops rule: rev_induct)
  case Nil
  show ?case
    by (simp add: run_ops_def plain_def newOrderedIDs_def orderedIDs_List_def relativeOrder_List_def)
next
  case (snoc op ops)
  then show ?case by (simp add: run_ops_def plain_apply_op)
qed

text \<open>
  Claim C6. Let \<open>g\<close> be the registry after any sequence of \<^verbatim>\<open>Add\<close>, \<^verbatim>\<open>Insert\<close> and
  \<^verbatim>\<open>Remove\<close> calls on a new registry, and \<open>m\<close> an item with a non-empty id not in
  \<^verbatim>\<open>List()\<close>. Then \<^verbatim>\<open>Add(m, Before)\<close> puts the id at index 0, \<^verbatim>\<open>Add(m, After)\<close> appends
  it, and for every entry \<open>X\<close> of the list, \<^verbatim>\<open>Insert(m, X, After)\<close> puts the id
  immediately after \<open>X\<close> and \<^verbatim>\<open>Insert(m, X, Before)\<close> immediately before it, every
  other entry keeping its relative place; \<^verbatim>\<open>Remove(X)\<close> deletes \<open>X\<close> alone.
\<close>

theorem insertion_order_contract:
  assumes "g = run_ops ops" and "ID m \<noteq> []" and "ID m \<notin> set (orderedIDs_List g)"
  shows "fst (orderedIDs_Add g m Before) = None \<and>
         orderedIDs_List (snd (orderedIDs_Add g m Before)) = ID m # orderedIDs_List g \<and>
         fst (orderedIDs_Add g m After) = None \<and>
         orderedIDs_List (snd (orderedIDs_Add g m After)) = orderedIDs_List g @ [ID m] \<and>
         (\<forall>pre X post. orderedIDs_List g = pre @ X # post \<longrightarrow>
            fst (orderedIDs_Insert g m X After) = None \<and>
            orderedIDs_List (snd (orderedIDs_Insert g m X After)) = pre @ X # ID m # post \<and>
            fst (orderedIDs_Insert g m X Before) = None \<and>
            orderedIDs_List (snd (orderedIDs_Insert g m X Before)) = pre @ ID m # X # post \<and>
            fst (orderedIDs_Remove g X) = None \<and>
            orderedIDs_List (snd (orderedIDs_Remove g X)) = pre @ post)"
proof -
  have pl: "plain g" using assms(1) by (simp add: plain_run_ops)
  have ns: "\<And>x. \<not> orderedIDs_IsSlot g x"
    using pl by (simp add: plain_def orderedIDs_IsSlot_def)
  have add: "fst (orderedIDs_Add g m Before) = None"
    "orderedIDs_List (snd (orderedIDs_Add g m Before)) = ID m # orderedIDs_List g"
    "fst (orderedIDs_Add g m After) = None"
    "orderedIDs_List (snd (orderedIDs_Add g m After)) = orderedIDs_List g @ [ID m]"
    using assms(2,3) Before_neq_After
    by (simp_all add: orderedIDs_Add_not_slot [OF ns assms(2)])
  have rest: "fst (orderedIDs_Insert g m X After) = None \<and>
      orderedIDs_List (snd (orderedIDs_Insert g m X After)) = pre @ X # ID m # post \<and>
      fst (orderedIDs_Insert g m X Before) = None \<and>
      orderedIDs_List (snd (orderedIDs_Insert g m X Before)) = pre @ ID m # X # post \<and>
      fst (orderedIDs_Remove g X) = None \<and>
      orderedIDs_List (snd (orderedIDs_Remove g X)) = pre @ post"
    if sp: "orderedIDs_List g = pre @ X # post" for pre X post
  proof -
    have np: "X \<notin> set pre" and ne: "X \<noteq> []"
      using pl sp by (auto simp: plain_def)
    show ?thesis
      using Before_neq_After
      by (simp add: orderedIDs_Insert_ok [OF assms(2) ne assms(3) sp np]
          orderedIDs_Remove_ok [OF ns ne sp np])
  qed
  show ?thesis using add rest by blast
qed

lemmas registry_eval =
  orderedIDs_Add_def orderedIDs_AddSlot_def orderedIDs_Insert_def orderedIDs_Remove_def
  orderedIDs_Swap_def orderedIDs_IsSlot_def orderedIDs_List_def orderedIDs_Get_def
  newOrderedIDs_def relativeOrder_Add_def relativeOrder_Insert_def relativeOrder_Remove_def
  relativeOrder_Swap_def relativeOrder_List_def insert_at_def copy_within_def has_eq
  After_def Before_def Let_def

theorem relativeOrder_Swap_in_place_witness:
  "''b'' \<in> set (relativeOrder_List \<lparr>order = [''a'', ''b'', ''c'']\<rparr>) \<and>
   ''x'' \<notin> set (relativeOrder_List \<lparr>order = [''a'', ''b'', ''c'']\<rparr>) \<and>
   relativeOrder_Swap \<lparr>order = [''a'', ''b'', ''c'']\<rparr> ''b'' ''x'' =
     (None, \<lparr>order = [''a'', ''x'', ''c'']\<rparr>) \<and>
   (\<exists>i < length (relativeOrder_List \<lparr>order = [''a'', ''b'', ''c'']\<rparr>).
      relativeOrder_List \<lparr>order = [''a'', ''b'', ''c'']\<rparr> ! i = ''b'' \<and>
      relativeOrder_List (snd (relativeOrder_Swap \<lparr>order = [''a'', ''b'', ''c'']\<rparr> ''b'' ''x'')) =
        (relativeOrder_List \<lparr>order = [''a'', ''b'', ''c'']\<rparr>)[i := ''x''])"
proof -
  have h1: "''b'' \<in> set (relativeOrder_List \<lparr>order = [''a'', ''b'', ''c'']\<rparr>)"
    by (simp add: relativeOrder_List_def)
  have h2: "''x'' = ''b'' \<or> ''x'' \<notin> set (relativeOrder_List \<lparr>order = [''a'', ''b'', ''c'']\<rparr>)"
    by (simp add: relativeOrder_List_def)
  have ev: "relativeOrder_Swap \<lparr>order = [''a'', ''b'', ''c'']\<rparr> ''b'' ''x'' =
     (None, \<lparr>order = [''a'', ''x'', ''c'']\<rparr>)"
    by (simp add: registry_eval)
  from relativeOrder_Swap_in_place [OF h1 h2] obtain i where
    "i < length (relativeOrder_List \<lparr>order = [''a'', ''b'', ''c'']\<rparr>)"
    "relativeOrder_List \<lparr>order = [''a'', ''b'', ''c'']\<rparr> ! i = ''b''"
    "relativeOrder_List (snd (relativeOrder_Swap \<lparr>order = [''a'', ''b'', ''c'']\<rparr> ''b'' ''x'')) =
        (relativeOrder_List \<lparr>order = [''a'', ''b'', ''c'']\<rparr>)[i := ''x'']"
    by blast
  then show ?thesis using h1 h2 ev by blast
qed

theorem orderedIDs_Add_duplicate_unchanged_witness:
  "ID \<lparr>ID = ''A''\<rparr> \<in> set (orderedIDs_List (snd (orderedIDs_Add newOrderedIDs \<lparr>ID = ''A''\<rparr> After))) \<and>
   \<not> orderedIDs_IsSlot (snd (orderedIDs_Add newOrderedIDs \<lparr>ID = ''A''\<rparr> After)) (ID \<lparr>ID = ''A''\<rparr>) \<and>
   fst (orderedIDs_Add (snd (orderedIDs_Add newOrderedIDs \<lparr>ID = ''A''\<rparr> After)) \<lparr>ID = ''A''\<rparr> Before)
     \<noteq> None \<and>
   snd (orderedIDs_Add (snd (orderedIDs_Add newOrderedIDs \<lparr>ID = ''A''\<rparr> After)) \<lparr>ID = ''A''\<rparr> Before)
     = snd (orderedIDs_Add newOrderedIDs \<lparr>ID = ''A''\<rparr> After)"
proof -
  have h1: "ID \<lparr>ID = ''A''\<rparr> \<in>
      set (orderedIDs_List (snd (orderedIDs_Add newOrderedIDs \<lparr>ID = ''A''\<rparr> After)))"
    by (simp add: registry_eval)
  have h2: "\<not> orderedIDs_IsSlot (snd (orderedIDs_Add newOrderedIDs \<lparr>ID = ''A''\<rparr> After))
      (ID \<lparr>ID = ''A''\<rparr>)"
    by (simp add: registry_eval)
  show ?thesis
    using h1 h2 orderedIDs_Add_duplicate_unchanged [OF h1 h2, of Before] by blast
qed

lemma ID_forwarding [simp]: "ID (forwarding n) = n"
  by (simp add: forwarding_def DeserializeMiddlewareFunc_def)

lemma ID_short_circuiting [simp]: "ID (short_circuiting n) = n"
  by (simp add: short_circuiting_def DeserializeMiddlewareFunc_def)

lemma slot_X_eval:
  "slot_X = \<lparr>g_order = \<lparr>order = [''X'']\<rparr>, items = Map.empty, slots = {''X''}\<rparr>"
  by (simp add: slot_X_def registry_eval)

lemma filled_X_eval:
  "filled_X = \<lparr>g_order = \<lparr>order = [''X'']\<rparr>, items = [''X'' \<mapsto> forwarding ''X''],
     slots = {''X''}\<rparr>"
  by (simp add: filled_X_def slot_X_eval registry_eval)

lemma run_ops_AB_eval:
  "run_ops ops_AB = \<lparr>g_order = \<lparr>order = [''A'', ''B'']\<rparr>,
     items = [''A'' \<mapsto> forwarding ''A'', ''B'' \<mapsto> forwarding ''B''], slots = {}\<rparr>"
  by (simp add: run_ops_def ops_AB_def registry_eval)

theorem orderedIDs_Add_duplicate_iff_witness:
  "orderedIDs_IsSlot filled_X (ID (short_circuiting ''X'' :: stub_middleware)) \<and>
   ID (short_circuiting ''X'' :: stub_middleware) \<noteq> [] \<and>
   items filled_X ''X'' = Some (forwarding ''X'') \<and>
   fst (orderedIDs_Add filled_X (short_circuiting ''X'') Before) = None \<and>
   orderedIDs_List (snd (orderedIDs_Add filled_X (short_circuiting ''X'') Before)) = [''X''] \<and>
   orderedIDs_Get (snd (orderedIDs_Add filled_X (short_circuiting ''X'') Before)) ''X'' =
     (Some (short_circuiting ''X''), True) \<and>
   \<not> (\<exists>x. fst (orderedIDs_Add filled_X (short_circuiting ''X'') Before) = Some (AlreadyExists x))"
proof -
  have h: "orderedIDs_IsSlot filled_X (ID (short_circuiting ''X'' :: stub_middleware)) \<and>
      ID (short_circuiting ''X'' :: stub_middleware) \<noteq> []"
    by (simp add: filled_X_eval orderedIDs_IsSlot_def)
  have l: "orderedIDs_List filled_X = [''X'']"
    by (simp add: filled_X_eval orderedIDs_List_def relativeOrder_List_def)
  have i: "items filled_X ''X'' = Some (forwarding ''X'')"
    by (simp add: filled_X_eval)
  show ?thesis
    using h l i orderedIDs_Add_duplicate_iff [of filled_X "short_circuiting ''X''" Before]
    by simp
qed

theorem insertion_order_contract_witness:
  "ID (forwarding ''C'' :: stub_middleware) \<noteq> [] \<and>
   ID (forwarding ''C'' :: stub_middleware) \<notin> set (orderedIDs_List (run_ops ops_AB)) \<and>
   orderedIDs_List (run_ops ops_AB) = [''A'', ''B''] \<and>
   orderedIDs_List (snd (orderedIDs_Add (run_ops ops_AB) (forwarding ''C'') Before)) =
     [''C'', ''A'', ''B''] \<and>
   orderedIDs_List (snd (orderedIDs_Add (run_ops ops_AB) (forwarding ''C'') After)) =
     [''A'', ''B'', ''C''] \<and>
   orderedIDs_List (snd (orderedIDs_Insert (run_ops ops_AB) (forwarding ''C'') ''A'' After)) =
     [''A'', ''C'', ''B''] \<and>
   orderedIDs_List (snd (orderedIDs_Insert (run_ops ops_AB) (forwarding ''C'') ''B'' Before)) =
     [''A'', ''C'', ''B''] \<and>
   orderedIDs_List (snd (orderedIDs_Remove (run_ops ops_AB) ''A'')) = [''B'']"
proof -
  have l: "orderedIDs_List (run_ops ops_AB) = [''A'', ''B'']"
    by (simp add: run_ops_AB_eval orderedIDs_List_def relativeOrder_List_def)
  have h1: "ID (forwarding ''C'' :: stub_middleware) \<noteq> []" by simp
  have h2: "ID (forwarding ''C'' :: stub_middleware) \<notin> set (orderedIDs_List (run_ops ops_AB))"
    by (simp add: l)
  note c = insertion_order_contract [OF refl h1 h2]
  have a: "orderedIDs_List (run_ops ops_AB) = [] @ ''A'' # [''B'']"
    and b: "orderedIDs_List (run_ops ops_AB) = [''A''] @ ''B'' # []"
    by (simp_all add: l)
  from c have ins: "\<And>pre X post. orderedIDs_List (run_ops ops_AB) = pre @ X # post \<Longrightarrow>
      orderedIDs_List (snd (orderedIDs_Insert (run_ops ops_AB) (forwarding ''C'') X After)) =
        pre @ X # ID (forwarding ''C'' :: stub_middleware) # post \<and>
      orderedIDs_List (snd (orderedIDs_Insert (run_ops ops_AB) (forwarding ''C'') X Before)) =
        pre @ ID (forwarding ''C'' :: stub_middleware) # X # post \<and>
      orderedIDs_List (snd (orderedIDs_Remove (run_ops ops_AB) X)) = pre @ post"
    by blast
  show ?thesis
    using h1 h2 l c ins [OF a] ins [OF b] by simp
qed

lemma slot_X_then_A_eval:
  "slot_X_then_A = \<lparr>g_order = \<lparr>order = [''X'', ''A'']\<rparr>, items = [''A'' \<mapsto> forwarding ''A''],
     slots = {''X''}\<rparr>"
  by (simp add: slot_X_then_A_def slot_X_eval registry_eval)

text \<open>
  Claim C3, as the code has it. \<^verbatim>\<open>Remove\<close> leaves the order alone when the id is a
  slot (the guard \<^verbatim>\<open>if !g.IsSlot(id)\<close>). On the registry with the slot \<open>X\<close> followed by
  \<open>A\<close>, \<^verbatim>\<open>Remove("X")\<close> succeeds and \<^verbatim>\<open>List()\<close> still holds \<open>X\<close> first; a later
  \<^verbatim>\<open>Add\<close> of \<open>X\<close> with \<^verbatim>\<open>After\<close> leaves \<open>X\<close> first, not last.
\<close>

theorem orderedIDs_Remove_slot_counterexample:
  "orderedIDs_IsSlot slot_X_then_A ''X'' \<and>
   fst (orderedIDs_Remove slot_X_then_A ''X'') = None \<and>
   orderedIDs_List (snd (orderedIDs_Remove slot_X_then_A ''X'')) = [''X'', ''A''] \<and>
   ''X'' \<in> set (orderedIDs_List (snd (orderedIDs_Remove slot_X_then_A ''X''))) \<and>
   orderedIDs_List (snd (orderedIDs_Add (snd (orderedIDs_Remove slot_X_then_A ''X''))
     (forwarding ''X'') After)) = [''X'', ''A'']"
  by (simp add: slot_X_then_A_eval registry_eval)

text \<open>
  Claim C3, amended. For every registry and every non-empty id registered as a slot,
  \<^verbatim>\<open>Remove(id)\<close> succeeds and deletes the item binding only: \<^verbatim>\<open>List()\<close> and the slot
  set are unchanged, so the id keeps its position; and a later \<^verbatim>\<open>Add\<close> of an item with
  that id succeeds, binds the item and leaves \<^verbatim>\<open>List()\<close> unchanged, whatever position the
  call names.
\<close>

theorem orderedIDs_Remove_slot_keeps_position:
  assumes "orderedIDs_IsSlot g id'" and "id' \<noteq> []"
  shows "fst (orderedIDs_Remove g id') = None \<and>
         orderedIDs_List (snd (orderedIDs_Remove g id')) = orderedIDs_List g \<and>
         slots (snd (orderedIDs_Remove g id')) = slots g \<and>
         items (snd (orderedIDs_Remove g id')) = (items g)(id' := None) \<and>
         (\<forall>m pos. ID m = id' \<longrightarrow>
            fst (orderedIDs_Add (snd (orderedIDs_Remove g id')) m pos) = None \<and>
            orderedIDs_List (snd (orderedIDs_Add (snd (orderedIDs_Remove g id')) m pos)) =
              orderedIDs_List g \<and>
            items (snd (orderedIDs_Add (snd (orderedIDs_Remove g id')) m pos)) id' = Some m)"
proof -
  have rm: "orderedIDs_Remove g id' = (None, g\<lparr>items := (items g)(id' := None)\<rparr>)"
    using assms by (rule orderedIDs_Remove_slot)
  have sl: "orderedIDs_IsSlot (g\<lparr>items := (items g)(id' := None)\<rparr>) id'"
    using assms(1) by (simp add: orderedIDs_IsSlot_def)
  have add: "orderedIDs_Add (g\<lparr>items := (items g)(id' := None)\<rparr>) m pos =
      (None, g\<lparr>items := ((items g)(id' := None))(id' \<mapsto> m)\<rparr>)" if "ID m = id'" for m pos
    using orderedIDs_Add_slot [of "g\<lparr>items := (items g)(id' := None)\<rparr>" m pos] sl assms(2) that
    by simp
  show ?thesis
    by (simp add: rm add orderedIDs_List_def)
qed

theorem orderedIDs_Remove_slot_keeps_position_witness:
  "orderedIDs_IsSlot slot_X_then_A ''X'' \<and> ''X'' \<noteq> [] \<and>
   fst (orderedIDs_Remove slot_X_then_A ''X'') = None \<and>
   orderedIDs_List (snd (orderedIDs_Remove slot_X_then_A ''X'')) = orderedIDs_List slot_X_then_A \<and>
   orderedIDs_List (snd (orderedIDs_Add (snd (orderedIDs_Remove slot_X_then_A ''X''))
     (forwarding ''X'') After)) = orderedIDs_List slot_X_then_A"
proof -
  have h1: "orderedIDs_IsSlot slot_X_then_A ''X''"
    by (simp add: slot_X_then_A_eval orderedIDs_IsSlot_def)
  have h2: "''X'' \<noteq> []" by simp
  show ?thesis
    using h1 orderedIDs_Remove_slot_keeps_position [OF h1 h2] by simp
qed

text \<open>
  Claim C2, on the code. For every step whose registry holds \<open>id\<close> as a slot in the
  order with no item bound to it, and every item \<open>m\<close> with that id, the registry's
  \<^verbatim>\<open>Swap(id, m)\<close> succeeds, leaves \<^verbatim>\<open>List()\<close> unchanged and returns the nil interface
  value as the removed item, no placeholder; the type assertion of
  \<^verbatim>\<open>DeserializeStep.Swap\<close> on that value then panics.
\<close>

theorem DeserializeStep_Swap_unfilled_slot_panics:
  assumes "orderedIDs_IsSlot (ids s) id'" and "id' \<in> set (orderedIDs_List (ids s))"
    and "items (ids s) id' = None" and "ID m = id'" and "id' \<noteq> []"
  shows "fst (orderedIDs_Swap (ids s) id' m) = (None, None) \<and>
         orderedIDs_List (snd (orderedIDs_Swap (ids s) id' m)) = orderedIDs_List (ids s) \<and>
         fst (DeserializeStep_Swap s id' m) = (None, Some PanicNilInterfaceConversion)"
proof -
  from assms(2) obtain pre post where
    sp: "order (g_order (ids s)) = pre @ id' # post" "id' \<notin> set pre"
    unfolding orderedIDs_List_def relativeOrder_List_def
    using split_list_first [of id' "order (g_order (ids s))"] by blast
  have sw: "relativeOrder_Swap (g_order (ids s)) id' id' =
      (None, (g_order (ids s))\<lparr>order := pre @ id' # post\<rparr>)"
    using relativeOrder_Swap_present [OF sp, of id'] by simp
  have o: "orderedIDs_Swap (ids s) id' m =
      ((None, None), (ids s)\<lparr>g_order := (g_order (ids s))\<lparr>order := pre @ id' # post\<rparr>,
         items := ((items (ids s))(id' := None))(id' \<mapsto> m)\<rparr>)"
    using assms(3,4,5) by (simp add: orderedIDs_Swap_def Let_def sw)
  show ?thesis
    using sp(1) by (simp add: o DeserializeStep_Swap_def orderedIDs_List_def relativeOrder_List_def)
qed

theorem DeserializeStep_Swap_unfilled_slot_panics_witness:
  "orderedIDs_IsSlot (ids step_slot_X) ''X'' \<and>
   ''X'' \<in> set (orderedIDs_List (ids step_slot_X)) \<and>
   items (ids step_slot_X) ''X'' = None \<and>
   fst (orderedIDs_Swap (ids step_slot_X) ''X'' (forwarding ''X'')) = (None, None) \<and>
   fst (DeserializeStep_Swap step_slot_X ''X'' (forwarding ''X'')) =
     (None, Some PanicNilInterfaceConversion)"
proof -
  have e: "ids step_slot_X = \<lparr>g_order = \<lparr>order = [''X'']\<rparr>, items = Map.empty, slots = {''X''}\<rparr>"
    by (simp add: step_slot_X_def DeserializeStep_AddSlot_def NewDeserializeStep_def registry_eval)
  have h1: "orderedIDs_IsSlot (ids step_slot_X) ''X''"
    and h2: "''X'' \<in> set (orderedIDs_List (ids step_slot_X))"
    and h3: "items (ids step_slot_X) ''X'' = None"
    by (simp_all add: e orderedIDs_IsSlot_def orderedIDs_List_def relativeOrder_List_def)
  have h4: "ID (forwarding ''X'' :: stub_middleware) = ''X''" by simp
  have h5: "''X'' \<noteq> []" by simp
  show ?thesis
    using h1 h2 h3 DeserializeStep_Swap_unfilled_slot_panics [OF h1 h2 h3 h4 h5] by simp
qed

section \<open>Properties of the deserialize step\<close>

lemma HandleMiddleware_loop_foldr:
  "n \<le> length ms \<Longrightarrow>
     HandleMiddleware_loop ms n h = foldr (\<lambda>m h. decoratedDeserializeHandler h m) (take n ms) h"
proof (induction n arbitrary: h)
  case 0
  show ?case by simp
next
  case (Suc n)
  then have lt: "n < length ms" by simp
  show ?case
    using Suc.IH [of "decoratedDeserializeHandler h (ms ! n)"] lt
    by (simp add: take_Suc_conv_app_nth)
qed

lemma HandleMiddleware_chain:
  "DeserializeStep_HandleMiddleware s ctx in' next' w =
     (case foldr (\<lambda>m h. decoratedDeserializeHandler h m) (orderedIDs_GetOrder (ids s))
             (deserializeWrapHandler next') ctx \<lparr>Request = in'\<rparr> w of
        ((res, metadata, err), w') \<Rightarrow> ((Result res, metadata, err), w'))"
  by (simp add: DeserializeStep_HandleMiddleware_def Let_def HandleMiddleware_loop_foldr)

lemma HandleDeserialize_forwarding [simp]:
  "HandleDeserialize (forwarding n) ctx in' next' w = next' ctx in' (w @ [n])"
  by (simp add: forwarding_def DeserializeMiddlewareFunc_def)

lemma HandleDeserialize_short_circuiting [simp]:
  "HandleDeserialize (short_circuiting n) ctx in' next' w =
     ((\<lparr>RawResponse = None, Result = None\<rparr>, (), None), w @ [n])"
  by (simp add: short_circuiting_def DeserializeMiddlewareFunc_def)

text \<open>
  Claim C9. For a step whose registry yields no middleware, and a terminal handler that
  returns \<open>resp\<close> (nil or not), the metadata and the error, the inner adapter puts \<open>resp\<close>
  in \<^verbatim>\<open>RawResponse\<close> and leaves \<^verbatim>\<open>Result\<close> nil, and \<^verbatim>\<open>HandleMiddleware\<close> returns the
  \<^verbatim>\<open>Result\<close> field: a nil output, with the handler's metadata and error.
\<close>

theorem HandleMiddleware_empty_drops_response:
  assumes "orderedIDs_GetOrder (ids s) = []" and "next' ctx in' w = ((resp, metadata, err), w')"
  shows "deserializeWrapHandler next' ctx \<lparr>Request = in'\<rparr> w =
           ((\<lparr>RawResponse = resp, Result = None\<rparr>, metadata, err), w') \<and>
         DeserializeStep_HandleMiddleware s ctx in' next' w = ((None, metadata, err), w')"
  using assms by (simp add: HandleMiddleware_chain deserializeWrapHandler_def)

lemma HandleMiddleware_three:
  assumes "orderedIDs_GetOrder (ids s) = [A, B, C]"
  shows "DeserializeStep_HandleMiddleware s ctx in' next' w =
        (case HandleDeserialize A ctx \<lparr>Request = in'\<rparr>
                (\<lambda>c1 i1. HandleDeserialize B c1 i1
                   (\<lambda>c2 i2. HandleDeserialize C c2 i2 (deserializeWrapHandler next'))) w of
           ((res, metadata, err), w') \<Rightarrow> ((Result res, metadata, err), w'))"
  using assms by (simp add: HandleMiddleware_chain decoratedDeserializeHandler_def)

text \<open>
  Claim C4. When \<^verbatim>\<open>GetOrder()\<close> yields \<open>[A, B, C]\<close>, \<^verbatim>\<open>HandleMiddleware\<close> calls \<open>A\<close>
  with a next handler that calls \<open>B\<close> with a next handler that calls \<open>C\<close> with the
  adapter of the terminal handler. If \<open>B\<close> does not depend on its next handler, the result
  and the world left are the same whatever \<open>C\<close> and the terminal handler are. With
  recording stubs the calls recorded are \<open>a, b, c\<close> and the terminal handler, in that
  order; when the second stub returns without calling its next handler they are \<open>a, b\<close>
  only.
\<close>

theorem HandleMiddleware_invocation_order:
  "(orderedIDs_GetOrder (ids s) = [A, B, C] \<longrightarrow>
      DeserializeStep_HandleMiddleware s ctx in' next' w =
        (case HandleDeserialize A ctx \<lparr>Request = in'\<rparr>
                (\<lambda>c1 i1. HandleDeserialize B c1 i1
                   (\<lambda>c2 i2. HandleDeserialize C c2 i2 (deserializeWrapHandler next'))) w of
           ((res, metadata, err), w') \<Rightarrow> ((Result res, metadata, err), w'))) \<and>
   (orderedIDs_GetOrder (ids s) = [A, B, C] \<and> orderedIDs_GetOrder (ids s') = [A, B, C'] \<and>
    (\<forall>c i n n'. HandleDeserialize B c i n = HandleDeserialize B c i n') \<longrightarrow>
      DeserializeStep_HandleMiddleware s ctx in' next' w =
        DeserializeStep_HandleMiddleware s' ctx in' next'' w) \<and>
   (orderedIDs_GetOrder (ids t) = [forwarding a, forwarding b, forwarding c] \<longrightarrow>
      snd (DeserializeStep_HandleMiddleware t tctx tin (terminal z resp) tr) = tr @ [a, b, c, z]) \<and>
   (orderedIDs_GetOrder (ids t) = [forwarding a, short_circuiting b, forwarding c] \<longrightarrow>
      snd (DeserializeStep_HandleMiddleware t tctx tin (terminal z resp) tr) = tr @ [a, b])"
proof (intro conjI impI)
  assume "orderedIDs_GetOrder (ids s) = [A, B, C]"
  then show "DeserializeStep_HandleMiddleware s ctx in' next' w =
        (case HandleDeserialize A ctx \<lparr>Request = in'\<rparr>
                (\<lambda>c1 i1. HandleDeserialize B c1 i1
                   (\<lambda>c2 i2. HandleDeserialize C c2 i2 (deserializeWrapHandler next'))) w of
           ((res, metadata, err), w') \<Rightarrow> ((Result res, metadata, err), w'))"
    by (rule HandleMiddleware_three)
next
  assume a: "orderedIDs_GetOrder (ids s) = [A, B, C] \<and> orderedIDs_GetOrder (ids s') = [A, B, C'] \<and>
    (\<forall>c i n n'. HandleDeserialize B c i n = HandleDeserialize B c i n')"
  then have ign: "\<And>c i n n'. HandleDeserialize B c i n = HandleDeserialize B c i n'" by blast
  from a have o1: "orderedIDs_GetOrder (ids s) = [A, B, C]"
    and o2: "orderedIDs_GetOrder (ids s') = [A, B, C']" by blast+
  define K where "K = (\<lambda>c1 i1. HandleDeserialize B c1 i1
           (\<lambda>c2 i2. HandleDeserialize C c2 i2 (deserializeWrapHandler next')))"
  define K' where "K' = (\<lambda>c1 i1. HandleDeserialize B c1 i1
           (\<lambda>c2 i2. HandleDeserialize C' c2 i2 (deserializeWrapHandler next'')))"
  have keq: "K = K'"
    unfolding K_def K'_def by (intro ext) (rule fun_cong [OF ign])
  have e1: "DeserializeStep_HandleMiddleware s ctx in' next' w =
      (case HandleDeserialize A ctx \<lparr>Request = in'\<rparr> K w of
         ((res, metadata, err), w') \<Rightarrow> ((Result res, metadata, err), w'))"
    unfolding K_def by (rule HandleMiddleware_three [OF o1])
  have e2: "DeserializeStep_HandleMiddleware s' ctx in' next'' w =
      (case HandleDeserialize A ctx \<lparr>Request = in'\<rparr> K' w of
         ((res, metadata, err), w') \<Rightarrow> ((Result res, metadata, err), w'))"
    unfolding K'_def by (rule HandleMiddleware_three [OF o2])
  show "DeserializeStep_HandleMiddleware s ctx in' next' w =
        DeserializeStep_HandleMiddleware s' ctx in' next'' w"
    unfolding e1 e2 keq by (rule refl)
next
  assume "orderedIDs_GetOrder (ids t) = [forwarding a, forwarding b, forwarding c]"
  then show "snd (DeserializeStep_HandleMiddleware t tctx tin (terminal z resp) tr) =
      tr @ [a, b, c, z]"
    by (simp add: HandleMiddleware_chain decoratedDeserializeHandler_def
        deserializeWrapHandler_def terminal_def)
next
  assume "orderedIDs_GetOrder (ids t) = [forwarding a, short_circuiting b, forwarding c]"
  then show "snd (DeserializeStep_HandleMiddleware t tctx tin (terminal z resp) tr) = tr @ [a, b]"
    by (simp add: HandleMiddleware_chain decoratedDeserializeHandler_def)
qed

lemma step_ABC_order:
  "orderedIDs_GetOrder (ids step_ABC) = [forwarding ''A'', forwarding ''B'', forwarding ''C'']"
  by (simp add: step_ABC_def DeserializeStep_Add_def NewDeserializeStep_def
      orderedIDs_GetOrder_def registry_eval)

lemma step_AsC_order:
  "orderedIDs_GetOrder (ids step_AsC) =
     [forwarding ''A'', short_circuiting ''B'', forwarding ''C'']"
  by (simp add: step_AsC_def DeserializeStep_Add_def NewDeserializeStep_def
      orderedIDs_GetOrder_def registry_eval)

theorem HandleMiddleware_empty_drops_response_witness:
  "orderedIDs_GetOrder (ids (NewDeserializeStep :: (unit, string, unit, unit, string list) DeserializeStep)) = [] \<and>
   terminal ''T'' (Some ''response'') () None [] = ((Some ''response'', (), None :: unit option), [''T'']) \<and>
   DeserializeStep_HandleMiddleware
     (NewDeserializeStep :: (unit, string, unit, unit, string list) DeserializeStep)
     () None (terminal ''T'' (Some ''response'')) [] = ((None, (), None), [''T''])"
proof -
  have h1: "orderedIDs_GetOrder
      (ids (NewDeserializeStep :: (unit, string, unit, unit, string list) DeserializeStep)) = []"
    by (simp add: NewDeserializeStep_def newOrderedIDs_def orderedIDs_GetOrder_def
        relativeOrder_List_def)
  have h2: "terminal ''T'' (Some ''response'') () None [] =
      ((Some ''response'', (), None :: unit option), [''T''])"
    by (simp add: terminal_def)
  from HandleMiddleware_empty_drops_response
    [where next' = "terminal ''T'' (Some ''response'')" and ctx = "()" and in' = None
       and w = "[]", OF h1 h2]
  have c: "DeserializeStep_HandleMiddleware
     (NewDeserializeStep :: (unit, string, unit, unit, string list) DeserializeStep)
     () None (terminal ''T'' (Some ''response'')) [] = ((None, (), None), [''T''])"
    by (rule conjunct2)
  show ?thesis
    by (intro conjI) (rule h1, rule h2, rule c)
qed

theorem HandleMiddleware_invocation_order_witness:
  "orderedIDs_GetOrder (ids step_ABC) = [forwarding ''A'', forwarding ''B'', forwarding ''C''] \<and>
   orderedIDs_GetOrder (ids step_AsC) =
     [forwarding ''A'', short_circuiting ''B'', forwarding ''C''] \<and>
   snd (DeserializeStep_HandleMiddleware step_ABC () None (terminal ''T'' (Some ''response'')) []) =
     [''A'', ''B'', ''C'', ''T''] \<and>
   snd (DeserializeStep_HandleMiddleware step_AsC () None (terminal ''T'' (Some ''response'')) []) =
     [''A'', ''B''] \<and>
   DeserializeStep_HandleMiddleware step_AsC () None (terminal ''T'' (Some ''response'')) [] =
     DeserializeStep_HandleMiddleware step_AsC () None (terminal ''U'' None) []"
proof -
  have ign: "\<forall>c i n n'. HandleDeserialize (short_circuiting ''B'' :: stub_middleware) c i n =
      HandleDeserialize (short_circuiting ''B'') c i n'"
    by (simp add: fun_eq_iff)
  note abc = HandleMiddleware_invocation_order
    [where t = step_ABC and a = "''A''" and b = "''B''" and c = "''C''" and tctx = "()"
       and tin = None and z = "''T''" and resp = "Some ''response''" and tr = "[]"]
  note asc = HandleMiddleware_invocation_order
    [where t = step_AsC and a = "''A''" and b = "''B''" and c = "''C''" and tctx = "()"
       and tin = None and z = "''T''" and resp = "Some ''response''" and tr = "[]"]
  note ind = HandleMiddleware_invocation_order
    [where s = step_AsC and A = "forwarding ''A''" and B = "short_circuiting ''B''"
       and C = "forwarding ''C''" and s' = step_AsC and C' = "forwarding ''C''"
       and ctx = "()" and in' = None and next' = "terminal ''T'' (Some ''response'')"
       and next'' = "terminal ''U'' None" and w = "[]"]
  have t1: "snd (DeserializeStep_HandleMiddleware step_ABC () None
      (terminal ''T'' (Some ''response'')) []) = [''A'', ''B'', ''C'', ''T'']"
    using abc [THEN conjunct2, THEN conjunct2, THEN conjunct1, THEN mp, OF step_ABC_order]
    by simp
  have t2: "snd (DeserializeStep_HandleMiddleware step_AsC () None
      (terminal ''T'' (Some ''response'')) []) = [''A'', ''B'']"
    using asc [THEN conjunct2, THEN conjunct2, THEN conjunct2, THEN mp, OF step_AsC_order]
    by simp
  have pre: "orderedIDs_GetOrder (ids step_AsC) =
        [forwarding ''A'', short_circuiting ''B'', forwarding ''C''] \<and>
      orderedIDs_GetOrder (ids step_AsC) =
        [forwarding ''A'', short_circuiting ''B'', forwarding ''C''] \<and>
      (\<forall>c i n n'. HandleDeserialize (short_circuiting ''B'' :: stub_middleware) c i n =
         HandleDeserialize (short_circuiting ''B'') c i n')"
    by (intro conjI) (rule step_AsC_order, rule step_AsC_order, rule ign)
  have t3: "DeserializeStep_HandleMiddleware step_AsC () None (terminal ''T'' (Some ''response'')) [] =
     DeserializeStep_HandleMiddleware step_AsC () None (terminal ''U'' None) []"
    by (rule ind [THEN conjunct2, THEN conjunct1, THEN mp, OF pre])
  show ?thesis
    by (intro conjI) (rule step_ABC_order, rule step_AsC_order, rule t1, rule t2, rule t3)
qed

section \<open>Properties of the waiters\<close>





text \<open>
  Claim C1, on the code. For every call of \<^verbatim>\<open>Wait\<close> with \<^verbatim>\<open>maxWaitTime\<close> zero, whatever
  the collaborators, the options and the option functions are, the call returns, the
  error returned is the one for an exceeded wait time, not the one built for a zero wait
  time, and the world is the one the call started in: no operation attempt, no sleep, no
  log line and no evaluation of \<^verbatim>\<open>Retryable\<close> has taken place.
\<close>

theorem Wait_zero_maxWaitTime:
  "Wait env wtr ctx params 0 optFns w = Some (Some ExceededMaxWaitTime, w) \<and>
   Wait env wtr ctx params 0 optFns w \<noteq> Some (Some MaxWaitTimeNotPositive, w)"
proof -
  have "Wait_loop env wtr opts c params 0 0 w = Some (Some ExceededMaxWaitTime, w)" for opts c
    by (subst Wait_loop.simps) simp
  then show ?thesis by (simp add: Wait_def Let_def)
qed

end
